theory Spec2Isabelle
  imports Main
begin

section \<open>ProductImageUploader: data\<close>

text \<open>
  The component of \<^verbatim>\<open>ProductImageUploader.tsx\<close>: five \<^verbatim>\<open>useState\<close> cells, one
  ref to the native file input, two event handlers, and an imperative handle with the
  methods \<^verbatim>\<open>enabled()\<close> and \<^verbatim>\<open>disabled()\<close>.

  The handlers only write the state cells (no handler reads one), so each handler is a
  function from the world before to the world after. The world also records a trace of
  every setter call and every call into the browser, in program order: properties about
  what happens before what, and how often, are read off the trace.
\<close>

text \<open>\<^verbatim>\<open>ProductModel.id: number | string\<close>. The type \<open>'n\<close> stands for JavaScript numbers.\<close>

datatype 'n product_id = NumId 'n | StrId string

text \<open>A \<^verbatim>\<open>File\<close> object. The component reads no attribute of it.\<close>

datatype file_object = File (file_name: string)

text \<open>A \<^verbatim>\<open><meta>\<close> element of the page, with its \<^verbatim>\<open>name\<close> and \<^verbatim>\<open>content\<close> attributes.\<close>

record meta_element =
  name_attr :: "string option"
  content_attr :: "string option"

type_synonym document = "meta_element list"

text \<open>\<^verbatim>\<open>FormData\<close>: the entries in the order they were appended.\<close>

type_synonym form_data = "(string \<times> file_object) list"

text \<open>The arguments of one \<^verbatim>\<open>fetch\<close> call.\<close>

record request =
  req_url :: string
  req_method :: string
  req_body :: form_data
  req_headers :: "(string \<times> string) list"

text \<open>
  A \<^verbatim>\<open>Response\<close>. \<open>body_text\<close> is what \<^verbatim>\<open>res.text()\<close> resolves to, \<open>None\<close> when that
  promise rejects.
\<close>

record response =
  status :: nat
  statusText :: string
  body_text :: "string option"

text \<open>
  A value caught by \<^verbatim>\<open>catch (err: any)\<close>, seen through \<^verbatim>\<open>err?.message\<close>: \<open>None\<close>
  when \<^verbatim>\<open>err\<close> is null or undefined or has no message.
\<close>

datatype thrown = Thrown (message: "string option")

datatype fetch_outcome = Resolved response | Rejected thrown

text \<open>The trace: the setter calls and the calls into the browser.\<close>

datatype event =
    SetIsDisabled bool
  | SetLoading bool
  | SetSuccess "string option"
  | SetError "string option"
  | SetPreviewUrl "string option"
  | CreateObjectURL file_object string
  | Fetch request

text \<open>The five \<^verbatim>\<open>useState\<close> cells (lines 25 to 29).\<close>

record widget =
  isDisabled :: bool
  loading :: bool
  success :: "string option"
  error :: "string option"
  previewUrl :: "string option"

text \<open>
  The widget in its page: the state cells, the file list of the input element behind
  \<^verbatim>\<open>inputRef\<close> (\<open>None\<close> while \<^verbatim>\<open>inputRef.current\<close> is null), the number of object URLs
  the browser has issued, the number of \<^verbatim>\<open>fetch\<close> promises not yet settled, and the
  trace.
\<close>

record world = widget +
  inputRef_files :: "file_object list option"
  urls_issued :: nat
  pending :: nat
  trace :: "event list"

definition hook_state :: "world \<Rightarrow> widget" where
  "hook_state w = widget.truncate w"

text \<open>
  What the component needs from outside: the props (\<^verbatim>\<open>productModel.id\<close>), the page's
  document, and the runtime's conversion of a number to a string, used by the template
  literal of line 78.
\<close>

record 'n env =
  productModel_id :: "'n product_id"
  page :: document
  number_to_string :: "'n \<Rightarrow> string"

section \<open>JavaScript and browser primitives\<close>

text \<open>\<^verbatim>\<open>a || b\<close> on a string that may be null or undefined: the empty string is falsy.\<close>

definition js_or :: "string option \<Rightarrow> string \<Rightarrow> string" where
  "js_or a b = (case a of None \<Rightarrow> b | Some s \<Rightarrow> if s = [] then b else s)"

text \<open>\<^verbatim>\<open>files?.[0]\<close>: undefined when there is no list or the list is empty.\<close>

definition first_file :: "file_object list option \<Rightarrow> file_object option" where
  "first_file fl = (case fl of None \<Rightarrow> None | Some [] \<Rightarrow> None | Some (f # _) \<Rightarrow> Some f)"

text \<open>The template literal's conversion of \<^verbatim>\<open>productModel.id\<close>.\<close>

definition to_string :: "('n \<Rightarrow> string) \<Rightarrow> 'n product_id \<Rightarrow> string" where
  "to_string num pid = (case pid of NumId n \<Rightarrow> num n | StrId s \<Rightarrow> s)"

text \<open>\<^verbatim>\<open>res.ok\<close>: the status is in the range 200 to 299.\<close>

definition ok :: "response \<Rightarrow> bool" where
  "ok res = (200 \<le> status res \<and> status res \<le> 299)"

text \<open>Decimal digits of a natural number.\<close>

definition digit :: "nat \<Rightarrow> char" where
  "digit d = ''0123456789'' ! d"

fun decimal :: "nat \<Rightarrow> string" where
  "decimal n =
     (if n < 10 then [digit n]
      else decimal (n div 10) @ [digit (n mod 10)])"

declare decimal.simps [simp del]

text \<open>
  \<^verbatim>\<open>URL.createObjectURL\<close> is the browser's: each call returns a new URL of the scheme
  \<^verbatim>\<open>blob:\<close>. The serial number of the call stands for the unique part of the URL.
\<close>

definition blob_url :: "nat \<Rightarrow> string" where
  "blob_url k = ''blob:'' @ decimal k"

definition createObjectURL :: "file_object \<Rightarrow> world \<Rightarrow> string \<times> world" where
  "createObjectURL f w =
     (let url = blob_url (urls_issued w)
      in (url, w\<lparr>urls_issued := Suc (urls_issued w),
                  trace := trace w @ [CreateObjectURL f url]\<rparr>))"

text \<open>\<^verbatim>\<open>fetch\<close>: the request leaves, and its promise is pending.\<close>

definition fetch :: "request \<Rightarrow> world \<Rightarrow> world" where
  "fetch req w = w\<lparr>pending := Suc (pending w), trace := trace w @ [Fetch req]\<rparr>"

text \<open>\<^verbatim>\<open>document.querySelector('meta[name="csrf-token"]')\<close>: the first match.\<close>

definition querySelector_csrf :: "document \<Rightarrow> meta_element option" where
  "querySelector_csrf doc = find (\<lambda>el. name_attr el = Some ''csrf-token'') doc"

text \<open>The \<^verbatim>\<open>content\<close> property reflects the attribute, empty when it is missing.\<close>

definition content :: "meta_element \<Rightarrow> string" where
  "content el = (case content_attr el of None \<Rightarrow> [] | Some c \<Rightarrow> c)"

text \<open>\<^verbatim>\<open>new FormData()\<close> and \<^verbatim>\<open>form.append\<close>.\<close>

definition new_FormData :: form_data where
  "new_FormData = []"

definition append_form :: "string \<Rightarrow> file_object \<Rightarrow> form_data \<Rightarrow> form_data" where
  "append_form k f form = form @ [(k, f)]"

section \<open>The state setters\<close>

definition setIsDisabled :: "bool \<Rightarrow> world \<Rightarrow> world" where
  "setIsDisabled v w = w\<lparr>isDisabled := v, trace := trace w @ [SetIsDisabled v]\<rparr>"

definition setLoading :: "bool \<Rightarrow> world \<Rightarrow> world" where
  "setLoading v w = w\<lparr>loading := v, trace := trace w @ [SetLoading v]\<rparr>"

definition setSuccess :: "string option \<Rightarrow> world \<Rightarrow> world" where
  "setSuccess v w = w\<lparr>success := v, trace := trace w @ [SetSuccess v]\<rparr>"

definition setError :: "string option \<Rightarrow> world \<Rightarrow> world" where
  "setError v w = w\<lparr>error := v, trace := trace w @ [SetError v]\<rparr>"

definition setPreviewUrl :: "string option \<Rightarrow> world \<Rightarrow> world" where
  "setPreviewUrl v w = w\<lparr>previewUrl := v, trace := trace w @ [SetPreviewUrl v]\<rparr>"

section \<open>The component\<close>

text \<open>The state on mount: the initial values of lines 25 to 29, the input attached.\<close>

definition mounted :: world where
  "mounted =
     \<lparr>isDisabled = False, loading = False, success = None, error = None,
      previewUrl = None, inputRef_files = Some [], urls_issued = 0, pending = 0,
      trace = []\<rparr>"

text \<open>
  The imperative handle (lines 31 to 42): an object with the two methods of the
  interface \<^verbatim>\<open>ProductImageUploaderHandle\<close> (lines 13 to 16), \<^verbatim>\<open>enabled\<close> and
  \<^verbatim>\<open>disabled\<close>.
\<close>

definition enabled :: "world \<Rightarrow> world" where
  "enabled w = setIsDisabled False w"

definition disabled :: "world \<Rightarrow> world" where
  "disabled w = setIsDisabled True w"

definition handle :: "(string \<times> (world \<Rightarrow> world)) list" where
  "handle = [(''enabled'', enabled), (''disabled'', disabled)]"

text \<open>
  The parent calls a method of the handle by its name, \<^verbatim>\<open>ref.current.name()\<close>. A name
  the object does not have is undefined, and calling it throws a \<^verbatim>\<open>TypeError\<close>.
\<close>

datatype call_error = NotAFunction

definition invoke :: "string \<Rightarrow> world \<Rightarrow> call_error + world" where
  "invoke name w =
     (case map_of handle name of
        None \<Rightarrow> Inl NotAFunction
      | Some method \<Rightarrow> Inr (method w))"

text \<open>\<^verbatim>\<open>getCsrfToken\<close> (lines 44 to 49).\<close>

definition getCsrfToken :: "document \<Rightarrow> string" where
  "getCsrfToken doc =
     (let el = querySelector_csrf doc
      in js_or (map_option content el) [])"

text \<open>
  \<^verbatim>\<open>handleFileChange\<close> (lines 51 to 61). The argument is \<^verbatim>\<open>e.target.files\<close>.
\<close>

definition handleFileChange :: "file_object list option \<Rightarrow> world \<Rightarrow> world" where
  "handleFileChange target_files w0 =
     (let w1 = setSuccess None w0;
          w2 = setError None w1;
          file = first_file target_files
      in case file of
           Some f \<Rightarrow>
             (let (url, w3) = createObjectURL f w2
              in setPreviewUrl (Some url) w3)
         | None \<Rightarrow> setPreviewUrl None w2)"

text \<open>
  \<^verbatim>\<open>handleUpload\<close> (lines 63 to 99) runs in two parts: up to the \<^verbatim>\<open>await\<close> of line 78
  inside the click, and from there on when the promise settles. The first part says
  whether the function has returned or waits.
\<close>

datatype progress = Returned | Awaiting

definition handleUpload_begin :: "'n env \<Rightarrow> world \<Rightarrow> progress \<times> world" where
  "handleUpload_begin env w0 =
     (let w1 = setSuccess None w0;
          w2 = setError None w1;
          file = first_file (inputRef_files w2)
      in case file of
           None \<Rightarrow> (Returned, setError (Some ''Selecione um arquivo para envio.'') w2)
         | Some f \<Rightarrow>
             (let w3 = setLoading True w2;
                  form = append_form ''image'' f new_FormData;
                  w4 = fetch
                         \<lparr>req_url = ''/api/products/''
                              @ to_string (number_to_string env) (productModel_id env)
                              @ ''/image'',
                          req_method = ''POST'',
                          req_body = form,
                          req_headers = [(''X-CSRF-TOKEN'', getCsrfToken (page env))]\<rparr>
                         w3
              in (Awaiting, w4)))"

text \<open>
  The rest of the \<^verbatim>\<open>try\<close> block (lines 87 to 93): \<open>Inl\<close> is a value thrown, by the
  rejected \<^verbatim>\<open>fetch\<close> or by line 89. Line 88 awaits the body of the response, with a
  rejection turned into null; no setter is called between the two awaits, so they are
  one step here.
\<close>

definition try_after_fetch :: "fetch_outcome \<Rightarrow> world \<Rightarrow> (thrown + unit) \<times> world" where
  "try_after_fetch outcome w =
     (case outcome of
        Rejected err \<Rightarrow> (Inl err, w)
      | Resolved res \<Rightarrow>
          if \<not> ok res then
            (let text = body_text res
             in (Inl (Thrown (Some (js_or (Some (js_or text (statusText res)))
                                      ''Erro no servidor''))), w))
          else
            (let w1 = setSuccess (Some ''Upload realizado com sucesso.'') w;
                 w2 = setError None w1
             in (Inr (), w2)))"

text \<open>The \<^verbatim>\<open>catch\<close> and \<^verbatim>\<open>finally\<close> blocks (lines 94 to 98) after the \<^verbatim>\<open>try\<close>.\<close>

definition handleUpload_resume :: "fetch_outcome \<Rightarrow> world \<Rightarrow> world" where
  "handleUpload_resume outcome w =
     (let (r, w1) = try_after_fetch outcome w;
          w2 = (case r of
                  Inl err \<Rightarrow> setError (Some (js_or (message err) ''Erro ao enviar imagem.'')) w1
                | Inr _ \<Rightarrow> w1)
      in setLoading False w2)"

text \<open>The promise of a \<^verbatim>\<open>fetch\<close> settles.\<close>

definition settle :: "world \<Rightarrow> world" where
  "settle w = w\<lparr>pending := pending w - 1\<rparr>"

text \<open>One whole call of \<^verbatim>\<open>handleUpload\<close>, with nothing happening during the \<^verbatim>\<open>await\<close>.\<close>

definition handleUpload :: "'n env \<Rightarrow> fetch_outcome \<Rightarrow> world \<Rightarrow> world" where
  "handleUpload env outcome w =
     (case handleUpload_begin env w of
        (Returned, w') \<Rightarrow> w'
      | (Awaiting, w') \<Rightarrow> handleUpload_resume outcome (settle w'))"

text \<open>
  What the render gives the two controls (lines 139 and 145): both carry
  \<^verbatim>\<open>disabled={isDisabled || loading}\<close>.
\<close>

definition input_disabled :: "world \<Rightarrow> bool" where
  "input_disabled w = (isDisabled w \<or> loading w)"

definition button_disabled :: "world \<Rightarrow> bool" where
  "button_disabled w = (isDisabled w \<or> loading w)"

text \<open>
  What can happen to the mounted widget. The user changes the selection of the file
  input (the browser stores the new list in the element and fires \<^verbatim>\<open>onChange\<close>) or
  clicks the button; a disabled control takes no user input and fires no event. The
  parent calls a method of the handle. A pending request settles.
\<close>

datatype action =
    UserSelects "file_object list"
  | UserClicks
  | ParentCallsEnabled
  | ParentCallsDisabled
  | FetchSettles fetch_outcome

definition step :: "'n env \<Rightarrow> world \<Rightarrow> action \<Rightarrow> world" where
  "step env w a =
     (case a of
        UserSelects fs \<Rightarrow>
          if input_disabled w then w
          else handleFileChange (Some fs) (w\<lparr>inputRef_files := Some fs\<rparr>)
      | UserClicks \<Rightarrow>
          if button_disabled w then w
          else snd (handleUpload_begin env w)
      | ParentCallsEnabled \<Rightarrow> enabled w
      | ParentCallsDisabled \<Rightarrow> disabled w
      | FetchSettles outcome \<Rightarrow>
          if pending w = 0 then w
          else handleUpload_resume outcome (settle w))"

definition run :: "'n env \<Rightarrow> action list \<Rightarrow> world" where
  "run env as = foldl (step env) mounted as"

text \<open>The actions of the user, as against those of the parent and the network.\<close>

fun by_user :: "action \<Rightarrow> bool" where
  "by_user (UserSelects fs) = True"
| "by_user UserClicks = True"
| "by_user ParentCallsEnabled = False"
| "by_user ParentCallsDisabled = False"
| "by_user (FetchSettles outcome) = False"

text \<open>The events a piece of code added to the trace.\<close>

definition added :: "world \<Rightarrow> world \<Rightarrow> event list" where
  "added w w' = drop (length (trace w)) (trace w')"

text \<open>What a traced setter call does to the state cells, and the state after a trace.\<close>

fun apply_event :: "event \<Rightarrow> widget \<Rightarrow> widget" where
  "apply_event (SetIsDisabled v) s = s\<lparr>isDisabled := v\<rparr>"
| "apply_event (SetLoading v) s = s\<lparr>loading := v\<rparr>"
| "apply_event (SetSuccess v) s = s\<lparr>success := v\<rparr>"
| "apply_event (SetError v) s = s\<lparr>error := v\<rparr>"
| "apply_event (SetPreviewUrl v) s = s\<lparr>previewUrl := v\<rparr>"
| "apply_event (CreateObjectURL f u) s = s"
| "apply_event (Fetch r) s = s"

definition replay :: "event list \<Rightarrow> widget \<Rightarrow> widget" where
  "replay es s = foldl (\<lambda>s e. apply_event e s) s es"

text \<open>Every state the cells pass through while a trace is replayed.\<close>

fun states :: "widget \<Rightarrow> event list \<Rightarrow> widget list" where
  "states s [] = [s]"
| "states s (e # es) = s # states (apply_event e s) es"

text \<open>The requests of a trace, in order.\<close>

fun requests :: "event list \<Rightarrow> request list" where
  "requests [] = []"
| "requests (Fetch r # es) = r # requests es"
| "requests (e # es) = requests es"

section \<open>Invariants of the mounted widget\<close>

definition one_message :: "widget \<Rightarrow> bool" where
  "one_message s = (success s = None \<or> error s = None)"

text \<open>
  At most one request is pending; while it is, the widget is loading and shows no
  message.
\<close>

definition upload_inv :: "world \<Rightarrow> bool" where
  "upload_inv w =
     ((success w = None \<or> error w = None) \<and> pending w \<le> 1
      \<and> (pending w = 1 \<longrightarrow> loading w \<and> success w = None \<and> error w = None))"

definition step_ok :: "world \<Rightarrow> world \<Rightarrow> bool" where
  "step_ok w w' =
     (\<exists>es. trace w' = trace w @ es \<and> upload_inv w'
        \<and> hook_state w' = replay es (hook_state w)
        \<and> list_all one_message (states (hook_state w) es))"

definition trace_ok :: "world \<Rightarrow> bool" where
  "trace_ok w =
     (upload_inv w \<and> hook_state w = replay (trace w) (hook_state mounted)
      \<and> list_all one_message (states (hook_state mounted) (trace w)))"

text \<open>
  The preview and the selection go together, and the preview is a URL the browser has
  issued.
\<close>

definition preview_inv :: "world \<Rightarrow> bool" where
  "preview_inv w =
     (((previewUrl w \<noteq> None) = (first_file (inputRef_files w) \<noteq> None))
      \<and> (\<forall>u. previewUrl w = Some u \<longrightarrow> (\<exists>k<urls_issued w. u = blob_url k)))"

section \<open>A page, two files and three responses\<close>

definition photo :: file_object where
  "photo = File ''photo.png''"

definition holiday :: file_object where
  "holiday = File ''holiday.jpg''"

definition page42 :: "nat env" where
  "page42 =
     \<lparr>productModel_id = NumId 42,
      page = [\<lparr>name_attr = Some ''viewport'', content_attr = Some ''width=device-width''\<rparr>,
              \<lparr>name_attr = Some ''csrf-token'', content_attr = Some ''s3cr3t''\<rparr>],
      number_to_string = decimal\<rparr>"

definition created :: response where
  "created = \<lparr>status = 201, statusText = ''Created'', body_text = Some ''stored''\<rparr>"

definition forbidden :: response where
  "forbidden = \<lparr>status = 403, statusText = ''Forbidden'', body_text = Some []\<rparr>"

definition bad_image :: response where
  "bad_image =
     \<lparr>status = 422, statusText = ''Unprocessable Content'', body_text = Some ''bad image''\<rparr>"

text \<open>The user has chosen \<open>photo\<close>.\<close>

definition chosen :: world where
  "chosen = run page42 [UserSelects [photo]]"

text \<open>An upload of \<open>photo\<close> is under way and the parent has disabled the widget.\<close>

definition busy_and_disabled :: world where
  "busy_and_disabled = run page42 [UserSelects [photo], UserClicks, ParentCallsDisabled]"

text \<open>A longer session: a refused upload, then one that succeeds.\<close>

definition session :: "action list" where
  "session =
     [UserClicks, UserSelects [photo, holiday], UserClicks, FetchSettles (Resolved forbidden),
      UserClicks, FetchSettles (Resolved created)]"

section \<open>What each handler does to the world\<close>

lemmas setters =
  setIsDisabled_def setLoading_def setSuccess_def setError_def setPreviewUrl_def

lemma enabled_world:
  "enabled w = w\<lparr>isDisabled := False, trace := trace w @ [SetIsDisabled False]\<rparr>"
  by (simp add: enabled_def setters)

lemma disabled_world:
  "disabled w = w\<lparr>isDisabled := True, trace := trace w @ [SetIsDisabled True]\<rparr>"
  by (simp add: disabled_def setters)

lemma handleFileChange_no_file:
  "first_file fl = None \<Longrightarrow>
   handleFileChange fl w =
     w\<lparr>success := None, error := None, previewUrl := None,
       trace := trace w @ [SetSuccess None, SetError None, SetPreviewUrl None]\<rparr>"
  by (simp add: handleFileChange_def setters Let_def)

lemma handleFileChange_file:
  "first_file fl = Some f \<Longrightarrow>
   handleFileChange fl w =
     w\<lparr>success := None, error := None,
       previewUrl := Some (blob_url (urls_issued w)),
       urls_issued := Suc (urls_issued w),
       trace := trace w @ [SetSuccess None, SetError None,
                           CreateObjectURL f (blob_url (urls_issued w)),
                           SetPreviewUrl (Some (blob_url (urls_issued w)))]\<rparr>"
  by (simp add: handleFileChange_def setters Let_def createObjectURL_def)

lemma handleUpload_begin_no_file:
  "first_file (inputRef_files w) = None \<Longrightarrow>
   handleUpload_begin env w =
     (Returned,
      w\<lparr>success := None, error := Some ''Selecione um arquivo para envio.'',
        trace := trace w @ [SetSuccess None, SetError None,
                            SetError (Some ''Selecione um arquivo para envio.'')]\<rparr>)"
  by (simp add: handleUpload_begin_def setters Let_def)

lemma handleUpload_begin_file:
  "first_file (inputRef_files w) = Some f \<Longrightarrow>
   handleUpload_begin env w =
     (Awaiting,
      w\<lparr>loading := True, success := None, error := None,
        pending := Suc (pending w),
        trace := trace w @ [SetSuccess None, SetError None, SetLoading True,
          Fetch \<lparr>req_url = ''/api/products/''
                     @ to_string (number_to_string env) (productModel_id env)
                     @ ''/image'',
                 req_method = ''POST'',
                 req_body = [(''image'', f)],
                 req_headers = [(''X-CSRF-TOKEN'', getCsrfToken (page env))]\<rparr>]\<rparr>)"
  by (simp add: handleUpload_begin_def setters Let_def fetch_def append_form_def
      new_FormData_def)

lemma handleUpload_resume_ok:
  "ok res \<Longrightarrow>
   handleUpload_resume (Resolved res) w =
     w\<lparr>loading := False, success := Some ''Upload realizado com sucesso.'',
       error := None,
       trace := trace w @ [SetSuccess (Some ''Upload realizado com sucesso.''),
                           SetError None, SetLoading False]\<rparr>"
  by (simp add: handleUpload_resume_def try_after_fetch_def setters Let_def)

lemma handleUpload_resume_not_ok:
  "\<not> ok res \<Longrightarrow>
   handleUpload_resume (Resolved res) w =
     w\<lparr>loading := False,
       error := Some (js_or (Some (js_or (body_text res) (statusText res)))
                        ''Erro no servidor''),
       trace := trace w @
         [SetError (Some (js_or (Some (js_or (body_text res) (statusText res)))
                            ''Erro no servidor'')),
          SetLoading False]\<rparr>"
  by (simp add: handleUpload_resume_def try_after_fetch_def setters Let_def js_or_def)

lemma handleUpload_resume_rejected:
  "handleUpload_resume (Rejected err) w =
     w\<lparr>loading := False,
       error := Some (js_or (message err) ''Erro ao enviar imagem.''),
       trace := trace w @
         [SetError (Some (js_or (message err) ''Erro ao enviar imagem.'')),
          SetLoading False]\<rparr>"
  by (simp add: handleUpload_resume_def try_after_fetch_def setters Let_def)

lemma added_append: "trace w' = trace w @ es \<Longrightarrow> added w w' = es"
  by (simp add: added_def)

lemma hook_state_simps [simp]:
  "isDisabled (hook_state w) = isDisabled w"
  "loading (hook_state w) = loading w"
  "success (hook_state w) = success w"
  "error (hook_state w) = error w"
  "previewUrl (hook_state w) = previewUrl w"
  by (simp_all add: hook_state_def widget.truncate_def)

text \<open>The \<^verbatim>\<open>||\<close> chain of line 89, case by case.\<close>

lemma js_or_cases:
  "js_or (Some (js_or b st)) fb =
     (let fallback = (if st \<noteq> [] then st else fb)
      in case b of None \<Rightarrow> fallback | Some t \<Rightarrow> if t \<noteq> [] then t else fallback)"
  by (simp add: js_or_def Let_def split: option.splits)

lemma getCsrfToken_cases:
  "getCsrfToken doc =
     (case find (\<lambda>el. name_attr el = Some ''csrf-token'') doc of
        None \<Rightarrow> []
      | Some el \<Rightarrow> (case content_attr el of None \<Rightarrow> [] | Some c \<Rightarrow> c))"
  by (simp add: getCsrfToken_def querySelector_csrf_def js_or_def content_def Let_def
      split: option.splits)

subsection \<open>The second part of an upload\<close>

lemma resume_trace:
  "\<exists>es. trace (handleUpload_resume outcome w) = trace w @ es @ [SetLoading False]
      \<and> (\<forall>v. SetLoading v \<notin> set es) \<and> (\<forall>r. Fetch r \<notin> set es)"
proof (cases outcome)
  case (Resolved res)
  then show ?thesis
    by (cases "ok res") (simp_all add: handleUpload_resume_ok handleUpload_resume_not_ok)
next
  case (Rejected err)
  then show ?thesis by (simp add: handleUpload_resume_rejected)
qed

lemma resume_loading: "\<not> loading (handleUpload_resume outcome w)"
proof (cases outcome)
  case (Resolved res)
  then show ?thesis
    by (cases "ok res") (simp_all add: handleUpload_resume_ok handleUpload_resume_not_ok)
next
  case (Rejected err)
  then show ?thesis by (simp add: handleUpload_resume_rejected)
qed

lemma resume_frame:
  "previewUrl (handleUpload_resume outcome w) = previewUrl w
   \<and> inputRef_files (handleUpload_resume outcome w) = inputRef_files w
   \<and> urls_issued (handleUpload_resume outcome w) = urls_issued w"
proof (cases outcome)
  case (Resolved res)
  then show ?thesis
    by (cases "ok res") (simp_all add: handleUpload_resume_ok handleUpload_resume_not_ok)
next
  case (Rejected err)
  then show ?thesis by (simp add: handleUpload_resume_rejected)
qed

lemma begin_frame:
  "previewUrl (snd (handleUpload_begin env w)) = previewUrl w
   \<and> inputRef_files (snd (handleUpload_begin env w)) = inputRef_files w
   \<and> urls_issued (snd (handleUpload_begin env w)) = urls_issued w"
  by (cases "first_file (inputRef_files w)")
    (simp_all add: handleUpload_begin_no_file handleUpload_begin_file)

subsection \<open>A whole upload\<close>

lemma handleUpload_file:
  assumes "first_file (inputRef_files w) = Some f"
  shows "handleUpload env outcome w =
     handleUpload_resume outcome (settle (snd (handleUpload_begin env w)))"
  using assms by (simp add: handleUpload_def handleUpload_begin_file)

lemma handleUpload_trace:
  assumes "first_file (inputRef_files w) = Some f"
  shows "\<exists>es. added w (handleUpload env outcome w) =
        [SetSuccess None, SetError None, SetLoading True,
         Fetch \<lparr>req_url = ''/api/products/''
                    @ to_string (number_to_string env) (productModel_id env)
                    @ ''/image'',
                req_method = ''POST'',
                req_body = [(''image'', f)],
                req_headers = [(''X-CSRF-TOKEN'', getCsrfToken (page env))]\<rparr>]
        @ es @ [SetLoading False]
      \<and> (\<forall>v. SetLoading v \<notin> set es) \<and> (\<forall>r. Fetch r \<notin> set es)"
proof -
  let ?w1 = "settle (snd (handleUpload_begin env w))"
  obtain es where
    es: "trace (handleUpload_resume outcome ?w1) = trace ?w1 @ es @ [SetLoading False]"
    and nl: "\<forall>v. SetLoading v \<notin> set es" and nf: "\<forall>r. Fetch r \<notin> set es"
    using resume_trace by blast
  have run: "handleUpload env outcome w = handleUpload_resume outcome ?w1"
    using assms by (rule handleUpload_file)
  have t1: "trace ?w1 = trace w @ [SetSuccess None, SetError None, SetLoading True,
         Fetch \<lparr>req_url = ''/api/products/''
                    @ to_string (number_to_string env) (productModel_id env)
                    @ ''/image'',
                req_method = ''POST'',
                req_body = [(''image'', f)],
                req_headers = [(''X-CSRF-TOKEN'', getCsrfToken (page env))]\<rparr>]"
    using assms by (simp add: handleUpload_begin_file settle_def)
  have "trace (handleUpload env outcome w) =
      trace w @ ([SetSuccess None, SetError None, SetLoading True,
         Fetch \<lparr>req_url = ''/api/products/''
                    @ to_string (number_to_string env) (productModel_id env)
                    @ ''/image'',
                req_method = ''POST'',
                req_body = [(''image'', f)],
                req_headers = [(''X-CSRF-TOKEN'', getCsrfToken (page env))]\<rparr>]
        @ es @ [SetLoading False])"
    by (simp only: run es t1 append_assoc)
  then have "added w (handleUpload env outcome w) =
        [SetSuccess None, SetError None, SetLoading True,
         Fetch \<lparr>req_url = ''/api/products/''
                    @ to_string (number_to_string env) (productModel_id env)
                    @ ''/image'',
                req_method = ''POST'',
                req_body = [(''image'', f)],
                req_headers = [(''X-CSRF-TOKEN'', getCsrfToken (page env))]\<rparr>]
        @ es @ [SetLoading False]"
    by (rule added_append)
  with nl nf show ?thesis by blast
qed

lemma requests_append: "requests (xs @ ys) = requests xs @ requests ys"
  by (induction xs rule: requests.induct) simp_all

lemma requests_none: "(\<forall>r. Fetch r \<notin> set es) \<Longrightarrow> requests es = []"
proof (induction es)
  case Nil
  then show ?case by simp
next
  case (Cons e es)
  then show ?case by (cases e) auto
qed

lemma handleUpload_requests:
  assumes "first_file (inputRef_files w) = Some f"
  shows "requests (added w (handleUpload env outcome w)) =
     [\<lparr>req_url = ''/api/products/''
          @ to_string (number_to_string env) (productModel_id env)
          @ ''/image'',
       req_method = ''POST'',
       req_body = [(''image'', f)],
       req_headers = [(''X-CSRF-TOKEN'', getCsrfToken (page env))]\<rparr>]"
proof -
  obtain es where a: "added w (handleUpload env outcome w) =
        [SetSuccess None, SetError None, SetLoading True,
         Fetch \<lparr>req_url = ''/api/products/''
                    @ to_string (number_to_string env) (productModel_id env)
                    @ ''/image'',
                req_method = ''POST'',
                req_body = [(''image'', f)],
                req_headers = [(''X-CSRF-TOKEN'', getCsrfToken (page env))]\<rparr>]
        @ es @ [SetLoading False]"
    and nf: "\<forall>r. Fetch r \<notin> set es"
    using handleUpload_trace [OF assms] by blast
  from nf have "requests es = []" by (rule requests_none)
  then show ?thesis by (simp add: a requests_append)
qed

lemma handleUpload_inputRef:
  assumes "first_file x = Some f"
  shows "handleUpload env outcome (w\<lparr>inputRef_files := x\<rparr>) =
     (handleUpload_resume outcome
        (w\<lparr>loading := True, success := None, error := None,
           trace := trace w @ [SetSuccess None, SetError None, SetLoading True,
             Fetch \<lparr>req_url = ''/api/products/''
                        @ to_string (number_to_string env) (productModel_id env)
                        @ ''/image'',
                    req_method = ''POST'',
                    req_body = [(''image'', f)],
                    req_headers = [(''X-CSRF-TOKEN'', getCsrfToken (page env))]\<rparr>]\<rparr>))
       \<lparr>inputRef_files := x\<rparr>"
proof -
  from assms have b: "first_file (inputRef_files (w\<lparr>inputRef_files := x\<rparr>)) = Some f"
    by simp
  show ?thesis
  proof (cases outcome)
    case (Resolved res)
    then show ?thesis
      by (cases "ok res")
        (simp_all add: handleUpload_def handleUpload_begin_file [OF b] settle_def
          handleUpload_resume_ok handleUpload_resume_not_ok)
  next
    case (Rejected err)
    then show ?thesis
      by (simp add: handleUpload_def handleUpload_begin_file [OF b] settle_def
          handleUpload_resume_rejected)
  qed
qed

subsection \<open>Object URLs are never reused\<close>

lemma digit_inj: "a < 10 \<Longrightarrow> b < 10 \<Longrightarrow> digit a = digit b \<Longrightarrow> a = b"
proof -
  assume a: "a < 10" and b: "b < 10" and e: "digit a = digit b"
  have d: "distinct ''0123456789''" by simp
  have l: "length ''0123456789'' = 10" by simp
  from e have "''0123456789'' ! a = ''0123456789'' ! b" by (simp only: digit_def)
  with d a b l show "a = b" by (simp only: nth_eq_iff_index_eq)
qed

lemma decimal_not_Nil: "decimal n \<noteq> []"
  by (subst decimal.simps) simp

lemma last_decimal: "last (decimal n) = digit (n mod 10)"
  by (subst decimal.simps) simp

lemma butlast_decimal:
  "butlast (decimal n) = (if n < 10 then [] else decimal (n div 10))"
  by (subst decimal.simps) simp

lemma decimal_inj: "decimal m = decimal n \<Longrightarrow> m = n"
proof (induction m arbitrary: n rule: decimal.induct)
  case (1 m)
  from "1.prems" have "digit (m mod 10) = digit (n mod 10)"
    by (metis last_decimal)
  then have r: "m mod 10 = n mod 10"
    by (intro digit_inj) simp_all
  from "1.prems" have b:
    "(if m < 10 then [] else decimal (m div 10)) = (if n < 10 then [] else decimal (n div 10))"
    by (metis butlast_decimal)
  show ?case
  proof (cases "m < 10")
    case True
    with b have "n < 10"
      using decimal_not_Nil [of "n div 10"] by (auto split: if_splits)
    with True r show ?thesis by simp
  next
    case False
    with b have e: "decimal (m div 10) = decimal (n div 10)"
      using decimal_not_Nil [of "m div 10"] by (auto split: if_splits)
    from "1.IH" [OF False e] have "m div 10 = n div 10" .
    with r show ?thesis by (metis div_mult_mod_eq)
  qed
qed

lemma blob_url_inj: "blob_url j = blob_url k \<Longrightarrow> j = k"
  by (simp add: blob_url_def decimal_inj)

lemma blob_url_not_Nil: "blob_url k \<noteq> []"
  by (simp add: blob_url_def)

section \<open>Replaying traces\<close>

lemma replay_Nil [simp]: "replay [] s = s"
  by (simp add: replay_def)

lemma replay_Cons [simp]: "replay (e # es) s = replay es (apply_event e s)"
  by (simp add: replay_def)

lemma replay_append: "replay (xs @ ys) s = replay ys (replay xs s)"
  by (simp add: replay_def)

lemma replay_take_in_states: "replay (take n es) s \<in> set (states s es)"
proof (induction es arbitrary: n s)
  case Nil
  then show ?case by simp
next
  case (Cons e es)
  then show ?case by (cases n) simp_all
qed

lemma states_append:
  "set (states s (xs @ ys)) = set (states s xs) \<union> set (states (replay xs s) ys)"
proof (induction xs arbitrary: s)
  case Nil
  then show ?case by (cases ys) auto
next
  case (Cons x xs)
  then show ?case by auto
qed

section \<open>The invariants hold in every reachable state\<close>

subsection \<open>Messages and the pending request\<close>

lemma step_ok_refl: "upload_inv w \<Longrightarrow> step_ok w w"
  by (simp add: step_ok_def upload_inv_def one_message_def)

lemma step_ok_enabled: "upload_inv w \<Longrightarrow> step_ok w (enabled w)"
  by (simp add: step_ok_def upload_inv_def one_message_def enabled_world hook_state_def
      widget.truncate_def)

lemma step_ok_disabled: "upload_inv w \<Longrightarrow> step_ok w (disabled w)"
  by (simp add: step_ok_def upload_inv_def one_message_def disabled_world hook_state_def
      widget.truncate_def)

lemma step_ok_select:
  "upload_inv w \<Longrightarrow> \<not> loading w \<Longrightarrow>
   step_ok w (handleFileChange (Some fs) (w\<lparr>inputRef_files := Some fs\<rparr>))"
proof (cases "first_file (Some fs)")
  case None
  assume "upload_inv w" "\<not> loading w"
  with None show ?thesis
    by (simp add: step_ok_def upload_inv_def one_message_def handleFileChange_no_file
        hook_state_def widget.truncate_def)
next
  case (Some f)
  assume "upload_inv w" "\<not> loading w"
  with Some show ?thesis
    by (simp add: step_ok_def upload_inv_def one_message_def handleFileChange_file
        hook_state_def widget.truncate_def)
qed

lemma step_ok_click:
  "upload_inv w \<Longrightarrow> \<not> loading w \<Longrightarrow> step_ok w (snd (handleUpload_begin env w))"
proof (cases "first_file (inputRef_files w)")
  case None
  assume "upload_inv w" "\<not> loading w"
  with None show ?thesis
    by (simp add: step_ok_def upload_inv_def one_message_def handleUpload_begin_no_file
        hook_state_def widget.truncate_def)
next
  case (Some f)
  assume "upload_inv w" "\<not> loading w"
  with Some show ?thesis
    by (auto simp add: step_ok_def upload_inv_def one_message_def handleUpload_begin_file
        hook_state_def widget.truncate_def)
qed

lemma step_ok_settle:
  "upload_inv w \<Longrightarrow> pending w \<noteq> 0 \<Longrightarrow>
   step_ok w (handleUpload_resume outcome (settle w))"
proof (cases outcome)
  case (Resolved res)
  assume "upload_inv w" "pending w \<noteq> 0"
  with Resolved show ?thesis
    by (cases "ok res")
      (auto simp add: step_ok_def upload_inv_def one_message_def handleUpload_resume_ok
        handleUpload_resume_not_ok hook_state_def widget.truncate_def settle_def)
next
  case (Rejected err)
  assume "upload_inv w" "pending w \<noteq> 0"
  with Rejected show ?thesis
    by (auto simp add: step_ok_def upload_inv_def one_message_def
        handleUpload_resume_rejected hook_state_def widget.truncate_def settle_def)
qed

lemma step_ok_step: "upload_inv w \<Longrightarrow> step_ok w (step env w a)"
proof (cases a)
  case (UserSelects fs)
  assume i: "upload_inv w"
  show ?thesis
  proof (cases "input_disabled w")
    case True
    with i UserSelects show ?thesis by (simp add: step_def step_ok_refl)
  next
    case False
    then have "\<not> loading w" by (simp add: input_disabled_def)
    with i False UserSelects show ?thesis by (simp add: step_def step_ok_select)
  qed
next
  case UserClicks
  assume i: "upload_inv w"
  show ?thesis
  proof (cases "button_disabled w")
    case True
    with i UserClicks show ?thesis by (simp add: step_def step_ok_refl)
  next
    case False
    then have "\<not> loading w" by (simp add: button_disabled_def)
    with i False UserClicks show ?thesis by (simp add: step_def step_ok_click)
  qed
next
  case ParentCallsEnabled
  assume "upload_inv w"
  with ParentCallsEnabled show ?thesis by (simp add: step_def step_ok_enabled)
next
  case ParentCallsDisabled
  assume "upload_inv w"
  with ParentCallsDisabled show ?thesis by (simp add: step_def step_ok_disabled)
next
  case (FetchSettles outcome)
  assume "upload_inv w"
  with FetchSettles show ?thesis
    by (cases "pending w = 0") (simp_all add: step_def step_ok_refl step_ok_settle)
qed

lemma trace_ok_mounted: "trace_ok mounted"
  by (simp add: trace_ok_def upload_inv_def one_message_def mounted_def hook_state_def
      widget.truncate_def)

lemma trace_ok_step:
  assumes "trace_ok w"
  shows "trace_ok (step env w a)"
proof -
  from assms have i: "upload_inv w"
    and h: "hook_state w = replay (trace w) (hook_state mounted)"
    and l: "list_all one_message (states (hook_state mounted) (trace w))"
    by (simp_all add: trace_ok_def)
  let ?w' = "step env w a"
  from i have "step_ok w ?w'" by (rule step_ok_step)
  then obtain es where i': "upload_inv ?w'" and t: "trace ?w' = trace w @ es"
    and h': "hook_state ?w' = replay es (hook_state w)"
    and l': "list_all one_message (states (hook_state w) es)"
    unfolding step_ok_def by blast
  have a: "hook_state ?w' = replay (trace ?w') (hook_state mounted)"
    by (simp only: t replay_append h' h)
  have "set (states (hook_state mounted) (trace ?w')) =
      set (states (hook_state mounted) (trace w)) \<union> set (states (hook_state w) es)"
    by (simp only: t states_append h)
  with l l' have b: "list_all one_message (states (hook_state mounted) (trace ?w'))"
    by (auto simp add: list_all_iff)
  from i' a b show ?thesis by (simp add: trace_ok_def)
qed

lemma trace_ok_foldl: "trace_ok w \<Longrightarrow> trace_ok (foldl (step env) w as)"
  by (induction as arbitrary: w) (simp_all add: trace_ok_step)

lemma trace_ok_run: "trace_ok (run env as)"
  by (simp add: run_def trace_ok_foldl trace_ok_mounted)

subsection \<open>Preview and selection\<close>

lemma preview_inv_mounted: "preview_inv mounted"
  by (simp add: preview_inv_def mounted_def first_file_def)

lemma preview_inv_select:
  "preview_inv (handleFileChange (Some fs) (w\<lparr>inputRef_files := Some fs\<rparr>))"
proof (cases "first_file (Some fs)")
  case None
  then show ?thesis by (simp add: preview_inv_def handleFileChange_no_file)
next
  case (Some f)
  then show ?thesis by (auto simp add: preview_inv_def handleFileChange_file)
qed

lemma preview_inv_step: "preview_inv w \<Longrightarrow> preview_inv (step env w a)"
proof (cases a)
  case (UserSelects fs)
  assume "preview_inv w"
  with UserSelects show ?thesis by (simp add: step_def preview_inv_select)
next
  case UserClicks
  assume "preview_inv w"
  with UserClicks show ?thesis by (simp add: step_def preview_inv_def begin_frame)
next
  case ParentCallsEnabled
  assume "preview_inv w"
  with ParentCallsEnabled show ?thesis
    by (simp add: step_def preview_inv_def enabled_world)
next
  case ParentCallsDisabled
  assume "preview_inv w"
  with ParentCallsDisabled show ?thesis
    by (simp add: step_def preview_inv_def disabled_world)
next
  case (FetchSettles outcome)
  assume "preview_inv w"
  with FetchSettles show ?thesis
    by (simp add: step_def preview_inv_def resume_frame settle_def)
qed

lemma preview_inv_foldl: "preview_inv w \<Longrightarrow> preview_inv (foldl (step env) w as)"
  by (induction as arbitrary: w) (simp_all add: preview_inv_step)

lemma preview_inv_run: "preview_inv (run env as)"
  by (simp add: run_def preview_inv_foldl preview_inv_mounted)

subsection \<open>A disabled widget and its user\<close>

lemma user_step_blocked: "isDisabled w \<Longrightarrow> by_user a \<Longrightarrow> step env w a = w"
  by (cases a) (simp_all add: step_def input_disabled_def button_disabled_def)

lemma user_steps_blocked:
  "isDisabled w \<Longrightarrow> list_all by_user as \<Longrightarrow> foldl (step env) w as = w"
  by (induction as) (simp_all add: user_step_blocked)

section \<open>The example session, evaluated\<close>

lemmas evaluate =
  run_def step_def input_disabled_def button_disabled_def mounted_def
  handleFileChange_def handleUpload_begin_def handleUpload_resume_def try_after_fetch_def
  settle_def setters enabled_def disabled_def createObjectURL_def fetch_def
  first_file_def blob_url_def decimal.simps digit_def js_or_def ok_def to_string_def
  getCsrfToken_def querySelector_csrf_def content_def append_form_def new_FormData_def
  Let_def

lemma chosen_world:
  "chosen =
     \<lparr>isDisabled = False, loading = False, success = None, error = None,
      previewUrl = Some ''blob:0'', inputRef_files = Some [photo], urls_issued = 1,
      pending = 0,
      trace = [SetSuccess None, SetError None, CreateObjectURL photo ''blob:0'',
               SetPreviewUrl (Some ''blob:0'')]\<rparr>"
  by (simp add: chosen_def evaluate)

lemma busy_and_disabled_world:
  "busy_and_disabled =
     \<lparr>isDisabled = True, loading = True, success = None, error = None,
      previewUrl = Some ''blob:0'', inputRef_files = Some [photo], urls_issued = 1,
      pending = 1,
      trace = [SetSuccess None, SetError None, CreateObjectURL photo ''blob:0'',
               SetPreviewUrl (Some ''blob:0''), SetSuccess None, SetError None,
               SetLoading True,
               Fetch \<lparr>req_url = ''/api/products/42/image'', req_method = ''POST'',
                      req_body = [(''image'', photo)],
                      req_headers = [(''X-CSRF-TOKEN'', ''s3cr3t'')]\<rparr>,
               SetIsDisabled True]\<rparr>"
  by (simp add: busy_and_disabled_def page42_def evaluate)

text \<open>
  The scenario of the specification: product 42, \<^verbatim>\<open>photo.png\<close> chosen, the endpoint
  answers 201.
\<close>

lemma end_to_end:
  "run page42 [UserSelects [photo], UserClicks, FetchSettles (Resolved created)] =
     \<lparr>isDisabled = False, loading = False,
      success = Some ''Upload realizado com sucesso.'', error = None,
      previewUrl = Some ''blob:0'', inputRef_files = Some [photo], urls_issued = 1,
      pending = 0,
      trace = [SetSuccess None, SetError None, CreateObjectURL photo ''blob:0'',
               SetPreviewUrl (Some ''blob:0''), SetSuccess None, SetError None,
               SetLoading True,
               Fetch \<lparr>req_url = ''/api/products/42/image'', req_method = ''POST'',
                      req_body = [(''image'', photo)],
                      req_headers = [(''X-CSRF-TOKEN'', ''s3cr3t'')]\<rparr>,
               SetSuccess (Some ''Upload realizado com sucesso.''), SetError None,
               SetLoading False]\<rparr>"
  by (simp add: page42_def created_def evaluate)

text \<open>
  A request sent before the parent disabled the widget still settles, and its result is
  shown: the handlers carry no guard of their own, the controls do.
\<close>

lemma request_settles_while_disabled:
  "hook_state (step page42 busy_and_disabled (FetchSettles (Resolved created))) =
     \<lparr>isDisabled = True, loading = False,
      success = Some ''Upload realizado com sucesso.'', error = None,
      previewUrl = Some ''blob:0''\<rparr>"
  by (simp add: busy_and_disabled_world created_def step_def settle_def ok_def
      handleUpload_resume_ok hook_state_def widget.truncate_def)

section \<open>The claims\<close>

text \<open>
  C1. Submitting while the input holds no file: \<^verbatim>\<open>handleUpload\<close> returns before its
  \<^verbatim>\<open>await\<close>; the calls it makes are the two clearing calls and the call that sets the
  validation message, so no request is sent and \<^verbatim>\<open>setLoading\<close> is never called; the
  error is the fixed message, and the loading flag and the number of pending requests
  are what they were.
\<close>

theorem submit_without_file:
  assumes "first_file (inputRef_files w) = None"
  shows "fst (handleUpload_begin env w) = Returned
    \<and> added w (handleUpload env outcome w) =
        [SetSuccess None, SetError None,
         SetError (Some ''Selecione um arquivo para envio.'')]
    \<and> (\<forall>req. Fetch req \<notin> set (added w (handleUpload env outcome w)))
    \<and> (\<forall>v. SetLoading v \<notin> set (added w (handleUpload env outcome w)))
    \<and> requests (added w (handleUpload env outcome w)) = []
    \<and> error (handleUpload env outcome w) = Some ''Selecione um arquivo para envio.''
    \<and> loading (handleUpload env outcome w) = loading w
    \<and> pending (handleUpload env outcome w) = pending w"
  using assms by (simp add: handleUpload_def handleUpload_begin_no_file added_def)

theorem submit_without_file_witness:
  "first_file (inputRef_files mounted) = None
   \<and> added mounted (handleUpload page42 (Resolved created) mounted) =
        [SetSuccess None, SetError None,
         SetError (Some ''Selecione um arquivo para envio.'')]
   \<and> error (handleUpload page42 (Resolved created) mounted) =
        Some ''Selecione um arquivo para envio.''
   \<and> loading (handleUpload page42 (Resolved created) mounted) = False"
proof -
  have h: "first_file (inputRef_files mounted) = None"
    by (simp add: mounted_def first_file_def)
  have l: "loading mounted = False"
    by (simp add: mounted_def)
  show ?thesis
    using h l
      submit_without_file [OF h, where env = page42 and outcome = "Resolved created"]
    by simp
qed

text \<open>
  C2. Submitting with a file in the input: the first part of \<^verbatim>\<open>handleUpload\<close> clears
  the messages, sets loading to true and then sends the request. Whatever the outcome of
  the request (a response, with any status, or a rejection), the whole call adds
  \<^verbatim>\<open>setLoading(true)\<close>, the request, some calls that do not touch loading and send
  nothing, and last one \<^verbatim>\<open>setLoading(false)\<close>. The second part does the same from any
  world \<open>v\<close> it resumes in.
\<close>

theorem loading_brackets_request:
  assumes "first_file (inputRef_files w) = Some f"
  shows "\<exists>req es es'.
      added w (snd (handleUpload_begin env w)) =
        [SetSuccess None, SetError None, SetLoading True, Fetch req]
      \<and> loading (snd (handleUpload_begin env w))
      \<and> added w (handleUpload env outcome w) =
        [SetSuccess None, SetError None, SetLoading True, Fetch req] @ es @ [SetLoading False]
      \<and> (\<forall>b. SetLoading b \<notin> set es) \<and> (\<forall>r. Fetch r \<notin> set es)
      \<and> \<not> loading (handleUpload env outcome w)
      \<and> added v (handleUpload_resume outcome v) = es' @ [SetLoading False]
      \<and> (\<forall>b. SetLoading b \<notin> set es')
      \<and> \<not> loading (handleUpload_resume outcome v)"
proof -
  obtain es where a: "added w (handleUpload env outcome w) =
        [SetSuccess None, SetError None, SetLoading True,
         Fetch \<lparr>req_url = ''/api/products/''
                    @ to_string (number_to_string env) (productModel_id env)
                    @ ''/image'',
                req_method = ''POST'',
                req_body = [(''image'', f)],
                req_headers = [(''X-CSRF-TOKEN'', getCsrfToken (page env))]\<rparr>]
        @ es @ [SetLoading False]"
    and nl: "\<forall>b. SetLoading b \<notin> set es" and nf: "\<forall>r. Fetch r \<notin> set es"
    using handleUpload_trace [OF assms] by blast
  have b: "added w (snd (handleUpload_begin env w)) =
        [SetSuccess None, SetError None, SetLoading True,
         Fetch \<lparr>req_url = ''/api/products/''
                    @ to_string (number_to_string env) (productModel_id env)
                    @ ''/image'',
                req_method = ''POST'',
                req_body = [(''image'', f)],
                req_headers = [(''X-CSRF-TOKEN'', getCsrfToken (page env))]\<rparr>]"
    using assms by (simp add: handleUpload_begin_file added_def)
  have c: "loading (snd (handleUpload_begin env w))"
    using assms by (simp add: handleUpload_begin_file)
  have d: "\<not> loading (handleUpload env outcome w)"
    using assms by (simp add: handleUpload_file resume_loading)
  obtain es' where
    "trace (handleUpload_resume outcome v) = trace v @ es' @ [SetLoading False]"
    and nl': "\<forall>b. SetLoading b \<notin> set es'"
    using resume_trace by blast
  then have e: "added v (handleUpload_resume outcome v) = es' @ [SetLoading False]"
    by (simp add: added_append)
  have g: "\<not> loading (handleUpload_resume outcome v)"
    by (rule resume_loading)
  from a b c d e g nl nf nl' show ?thesis by blast
qed

theorem loading_brackets_request_witness:
  "first_file (inputRef_files chosen) = Some photo
   \<and> (\<exists>req es.
        added chosen (handleUpload page42 (Rejected (Thrown None)) chosen) =
          [SetSuccess None, SetError None, SetLoading True, Fetch req] @ es
            @ [SetLoading False]
        \<and> (\<forall>b. SetLoading b \<notin> set es))
   \<and> \<not> loading (handleUpload page42 (Rejected (Thrown None)) chosen)"
proof -
  have h: "first_file (inputRef_files chosen) = Some photo"
    by (simp add: chosen_world first_file_def)
  show ?thesis
    using h
      loading_brackets_request
        [OF h, where env = page42 and outcome = "Rejected (Thrown None)"]
    by blast
qed

text \<open>
  C3. When the request has a response: with a status from 200 to 299 the widget sets
  the fixed success message and then clears the error, and the body of the response
  plays no part; with any other status it sets the error to the body text when that
  could be read and is not empty, else to the status text when that is not empty, else
  to \<^verbatim>\<open>Erro no servidor\<close>, and makes no call of \<^verbatim>\<open>setSuccess\<close>.
\<close>

theorem response_sets_message:
  "(let w' = handleUpload_resume (Resolved res) w;
        fallback = (if statusText res \<noteq> [] then statusText res else ''Erro no servidor'');
        shown = (case body_text res of
                   None \<Rightarrow> fallback
                 | Some t \<Rightarrow> if t \<noteq> [] then t else fallback)
    in if 200 \<le> status res \<and> status res \<le> 299 then
         success w' = Some ''Upload realizado com sucesso.''
         \<and> error w' = None
         \<and> added w w' =
             [SetSuccess (Some ''Upload realizado com sucesso.''), SetError None,
              SetLoading False]
         \<and> handleUpload_resume (Resolved (res\<lparr>body_text := other\<rparr>)) w = w'
       else
         error w' = Some shown
         \<and> success w' = success w
         \<and> added w w' = [SetError (Some shown), SetLoading False])"
proof (cases "ok res")
  case True
  then have "ok (res\<lparr>body_text := other\<rparr>)"
    by (simp add: ok_def)
  with True show ?thesis
    by (simp add: handleUpload_resume_ok Let_def added_def) (simp add: ok_def)
next
  case False
  then show ?thesis
    by (simp add: handleUpload_resume_not_ok js_or_cases Let_def added_def)
      (simp add: ok_def)
qed

theorem response_sets_message_witness:
  "error (handleUpload_resume (Resolved bad_image) chosen) = Some ''bad image''
   \<and> error (handleUpload_resume (Resolved forbidden) chosen) = Some ''Forbidden''
   \<and> success (handleUpload_resume (Resolved forbidden) chosen) = None
   \<and> success (handleUpload_resume (Resolved created) chosen) =
       Some ''Upload realizado com sucesso.''
   \<and> error (handleUpload_resume (Resolved created) chosen) = None"
proof -
  have s: "success chosen = None"
    by (simp add: chosen_world)
  show ?thesis
    using s response_sets_message [of bad_image chosen]
      response_sets_message [of forbidden chosen]
      response_sets_message [of created chosen]
    by (simp add: bad_image_def forbidden_def created_def Let_def)
qed

text \<open>
  C4. While \<^verbatim>\<open>isDisabled\<close> is true the file input and the button are rendered disabled,
  whatever \<^verbatim>\<open>loading\<close> is, so a change of the selection or a click by the user reaches
  no handler and leaves the whole world, the state cells among it, as it was; and so
  does any sequence of such changes and clicks.
\<close>

theorem disabled_flag_blocks_user:
  assumes "isDisabled w"
  shows "input_disabled w \<and> button_disabled w
    \<and> step env w (UserSelects fs) = w
    \<and> step env w UserClicks = w
    \<and> hook_state (step env w (UserSelects fs)) = hook_state w
    \<and> hook_state (step env w UserClicks) = hook_state w
    \<and> (list_all by_user as \<longrightarrow> foldl (step env) w as = w)"
  using assms
  by (simp add: step_def input_disabled_def button_disabled_def user_steps_blocked)

theorem disabled_flag_blocks_user_witness:
  "isDisabled busy_and_disabled \<and> loading busy_and_disabled
   \<and> step page42 busy_and_disabled (UserSelects [holiday]) = busy_and_disabled
   \<and> step page42 busy_and_disabled UserClicks = busy_and_disabled
   \<and> foldl (step page42) busy_and_disabled
         [UserClicks, UserSelects [holiday], UserSelects [], UserClicks]
       = busy_and_disabled
   \<and> isDisabled (disabled chosen) \<and> \<not> loading (disabled chosen)
   \<and> step page42 (disabled chosen) (UserSelects []) = disabled chosen
   \<and> step page42 (disabled chosen) UserClicks = disabled chosen"
proof -
  have h: "isDisabled busy_and_disabled"
    by (simp add: busy_and_disabled_world)
  have l: "loading busy_and_disabled"
    by (simp add: busy_and_disabled_world)
  have h': "isDisabled (disabled chosen)"
    by (simp add: disabled_world)
  have l': "\<not> loading (disabled chosen)"
    by (simp add: disabled_world chosen_world)
  have u: "list_all by_user [UserClicks, UserSelects [holiday], UserSelects [], UserClicks]"
    by simp
  note busy =
    disabled_flag_blocks_user
      [OF h, where env = page42 and fs = "[holiday]"
        and as = "[UserClicks, UserSelects [holiday], UserSelects [], UserClicks]"]
  note idle = disabled_flag_blocks_user [OF h', where env = page42 and fs = "[]"]
  from busy u have
    "foldl (step page42) busy_and_disabled
         [UserClicks, UserSelects [holiday], UserSelects [], UserClicks]
       = busy_and_disabled"
    by blast
  with h l h' l' busy idle show ?thesis by blast
qed

text \<open>
  C5. After \<^verbatim>\<open>handleFileChange\<close> there is a preview exactly when the event's file list
  has a first file. With a file, the preview is the URL that one new call of
  \<^verbatim>\<open>URL.createObjectURL\<close> on that file returned: it is not empty and differs from every
  URL issued before. With no file, the preview is cleared. In every reachable state the
  preview exists exactly when the input holds a file, and when the user of an enabled
  input selects files, the input holds them and the new preview is not the previous one.
\<close>

theorem preview_follows_selection:
  "((previewUrl (handleFileChange fl w) \<noteq> None) = (first_file fl \<noteq> None))
   \<and> (case first_file fl of
         None \<Rightarrow>
           added w (handleFileChange fl w) =
             [SetSuccess None, SetError None, SetPreviewUrl None]
       | Some f \<Rightarrow>
           (\<exists>url. url \<noteq> [] \<and> (\<forall>k<urls_issued w. url \<noteq> blob_url k)
              \<and> previewUrl (handleFileChange fl w) = Some url
              \<and> added w (handleFileChange fl w) =
                  [SetSuccess None, SetError None, CreateObjectURL f url,
                   SetPreviewUrl (Some url)]))
   \<and> (let v = run env as; v' = step env v (UserSelects fs)
       in ((previewUrl v \<noteq> None) = (first_file (inputRef_files v) \<noteq> None))
          \<and> (\<not> input_disabled v \<longrightarrow>
               inputRef_files v' = Some fs
               \<and> ((previewUrl v' \<noteq> None) = (fs \<noteq> []))
               \<and> (fs \<noteq> [] \<longrightarrow> previewUrl v' \<noteq> previewUrl v)))"
proof -
  have a: "(previewUrl (handleFileChange fl w) \<noteq> None) = (first_file fl \<noteq> None)"
    by (cases "first_file fl")
      (simp_all add: handleFileChange_no_file handleFileChange_file)
  have b: "case first_file fl of
         None \<Rightarrow>
           added w (handleFileChange fl w) =
             [SetSuccess None, SetError None, SetPreviewUrl None]
       | Some f \<Rightarrow>
           (\<exists>url. url \<noteq> [] \<and> (\<forall>k<urls_issued w. url \<noteq> blob_url k)
              \<and> previewUrl (handleFileChange fl w) = Some url
              \<and> added w (handleFileChange fl w) =
                  [SetSuccess None, SetError None, CreateObjectURL f url,
                   SetPreviewUrl (Some url)])"
  proof (cases "first_file fl")
    case None
    then show ?thesis by (simp add: handleFileChange_no_file added_def)
  next
    case (Some f)
    have "\<forall>k<urls_issued w. blob_url (urls_issued w) \<noteq> blob_url k"
      using blob_url_inj by blast
    with Some show ?thesis
      by (simp add: handleFileChange_file added_def blob_url_not_Nil)
  qed
  let ?v = "run env as"
  let ?v' = "step env ?v (UserSelects fs)"
  have i: "preview_inv ?v" by (rule preview_inv_run)
  then have c: "(previewUrl ?v \<noteq> None) = (first_file (inputRef_files ?v) \<noteq> None)"
    by (simp add: preview_inv_def)
  have d: "inputRef_files ?v' = Some fs \<and> ((previewUrl ?v' \<noteq> None) = (fs \<noteq> []))
      \<and> (fs \<noteq> [] \<longrightarrow> previewUrl ?v' \<noteq> previewUrl ?v)"
    if en: "\<not> input_disabled ?v"
  proof (cases fs)
    case Nil
    then have "first_file (Some fs) = None" by (simp add: first_file_def)
    with en Nil show ?thesis by (simp add: step_def handleFileChange_no_file)
  next
    case (Cons f others)
    then have f: "first_file (Some fs) = Some f" by (simp add: first_file_def)
    have "previewUrl ?v \<noteq> Some (blob_url (urls_issued ?v))"
    proof
      assume "previewUrl ?v = Some (blob_url (urls_issued ?v))"
      with i obtain k where "k < urls_issued ?v" "blob_url (urls_issued ?v) = blob_url k"
        by (auto simp add: preview_inv_def)
      then show False using blob_url_inj by blast
    qed
    with en f Cons show ?thesis by (simp add: step_def handleFileChange_file)
  qed
  from a b c d show ?thesis by (simp add: Let_def)
qed

theorem preview_follows_selection_witness:
  "\<not> input_disabled (run page42 [UserSelects [photo]])
   \<and> previewUrl (run page42 [UserSelects [photo]]) = Some ''blob:0''
   \<and> previewUrl (step page42 (run page42 [UserSelects [photo]]) (UserSelects [holiday]))
       \<noteq> Some ''blob:0''
   \<and> previewUrl (step page42 (run page42 [UserSelects [photo]]) (UserSelects [holiday]))
       \<noteq> None
   \<and> previewUrl (step page42 (run page42 [UserSelects [photo]]) (UserSelects [])) = None"
proof -
  have w: "run page42 [UserSelects [photo]] = chosen"
    by (simp add: chosen_def)
  have e: "\<not> input_disabled chosen"
    by (simp add: chosen_world input_disabled_def)
  have p: "previewUrl chosen = Some ''blob:0''"
    by (simp add: chosen_world)
  show ?thesis
    using e p
      preview_follows_selection
        [where env = page42 and as = "[UserSelects [photo]]" and fs = "[holiday]"]
      preview_follows_selection
        [where env = page42 and as = "[UserSelects [photo]]" and fs = "[]"]
    by (simp add: w Let_def)
qed

text \<open>
  C6. \<^verbatim>\<open>handleFileChange\<close> begins by clearing the success message and the error message,
  and sets neither afterwards: both are null after it, in every world and for every
  file list of the event, empty, missing or not.
\<close>

theorem file_change_clears_messages:
  "success (handleFileChange fl w) = None
   \<and> error (handleFileChange fl w) = None
   \<and> take 2 (added w (handleFileChange fl w)) = [SetSuccess None, SetError None]
   \<and> requests (added w (handleFileChange fl w)) = []"
proof (cases "first_file fl")
  case None
  then show ?thesis by (simp add: handleFileChange_no_file added_def)
next
  case (Some f)
  then show ?thesis by (simp add: handleFileChange_file added_def)
qed

theorem file_change_clears_messages_witness:
  "error (run page42 [UserClicks]) = Some ''Selecione um arquivo para envio.''
   \<and> error (handleFileChange (Some [photo]) (run page42 [UserClicks])) = None
   \<and> success (handleFileChange (Some [photo]) (run page42 [UserClicks])) = None
   \<and> error (handleFileChange (Some []) (run page42 [UserClicks])) = None"
proof -
  have e: "error (run page42 [UserClicks]) = Some ''Selecione um arquivo para envio.''"
    by (simp add: evaluate)
  show ?thesis
    using e
      file_change_clears_messages [of "Some [photo]" "run page42 [UserClicks]"]
      file_change_clears_messages [of "Some []" "run page42 [UserClicks]"]
    by simp
qed

text \<open>
  C7. In every state the mounted widget can reach, and in every state its cells pass
  through on the way (the state after any number \<open>n\<close> of the setter calls made so far),
  the success message or the error message is null. Every call of \<^verbatim>\<open>handleUpload\<close>
  starts with \<^verbatim>\<open>setSuccess(null)\<close> and \<^verbatim>\<open>setError(null)\<close>, before loading is set.
\<close>

theorem at_most_one_message:
  "(let s = replay (take n (trace (run env as))) (hook_state mounted)
    in success s = None \<or> error s = None)
   \<and> replay (trace (run env as)) (hook_state mounted) = hook_state (run env as)
   \<and> (success (run env as) = None \<or> error (run env as) = None)
   \<and> (\<exists>es. added w (snd (handleUpload_begin env w)) =
              [SetSuccess None, SetError None] @ es
            \<and> (es = [SetError (Some ''Selecione um arquivo para envio.'')]
                \<or> (\<exists>req. es = [SetLoading True, Fetch req])))"
proof -
  have t: "trace_ok (run env as)" by (rule trace_ok_run)
  have "replay (take n (trace (run env as))) (hook_state mounted)
      \<in> set (states (hook_state mounted) (trace (run env as)))"
    by (rule replay_take_in_states)
  with t have a: "one_message (replay (take n (trace (run env as))) (hook_state mounted))"
    by (simp add: trace_ok_def list_all_iff)
  from t have b: "replay (trace (run env as)) (hook_state mounted) = hook_state (run env as)"
    by (simp add: trace_ok_def)
  from t have c: "success (run env as) = None \<or> error (run env as) = None"
    by (simp add: trace_ok_def upload_inv_def)
  have d: "\<exists>es. added w (snd (handleUpload_begin env w)) =
              [SetSuccess None, SetError None] @ es
            \<and> (es = [SetError (Some ''Selecione um arquivo para envio.'')]
                \<or> (\<exists>req. es = [SetLoading True, Fetch req]))"
    by (cases "first_file (inputRef_files w)")
      (simp_all add: handleUpload_begin_no_file handleUpload_begin_file added_def)
  from a b c d show ?thesis by (simp add: one_message_def Let_def)
qed

theorem at_most_one_message_witness:
  "error (replay (take 12 (trace (run page42 session))) (hook_state mounted))
     = Some ''Forbidden''
   \<and> success (replay (take 12 (trace (run page42 session))) (hook_state mounted)) = None
   \<and> success (run page42 session) = Some ''Upload realizado com sucesso.''
   \<and> error (run page42 session) = None"
proof -
  have e: "error (replay (take 12 (trace (run page42 session))) (hook_state mounted))
     = Some ''Forbidden''"
    by (simp add: session_def page42_def forbidden_def created_def photo_def holiday_def
        evaluate hook_state_def widget.truncate_def)
  have s: "success (run page42 session) = Some ''Upload realizado com sucesso.''"
    by (simp add: session_def page42_def forbidden_def created_def photo_def holiday_def
        evaluate)
  show ?thesis
    using e s at_most_one_message [of 12 page42 session]
    by (simp add: Let_def)
qed

text \<open>
  C8. A call of \<^verbatim>\<open>handleUpload\<close> with a file in the input sends exactly one request,
  whatever its outcome: a POST to \<^verbatim>\<open>/api/products/\<close>, the id as a string (a string id as
  it is, a number through the runtime's conversion), \<^verbatim>\<open>/image\<close>; the body is form data
  with the one entry \<^verbatim>\<open>image\<close> holding the first file of the input; the one header is
  \<^verbatim>\<open>X-CSRF-TOKEN\<close>, with the content of the page's first \<^verbatim>\<open>meta\<close> element named
  \<^verbatim>\<open>csrf-token\<close>, and the empty string when there is no such element or it has no
  content.
\<close>

theorem upload_request:
  assumes "first_file (inputRef_files w) = Some f"
  shows "requests (added w (handleUpload env outcome w)) =
     [\<lparr>req_url = ''/api/products/''
          @ (case productModel_id env of
               NumId n \<Rightarrow> number_to_string env n
             | StrId s \<Rightarrow> s)
          @ ''/image'',
       req_method = ''POST'',
       req_body = [(''image'', f)],
       req_headers =
         [(''X-CSRF-TOKEN'',
           case find (\<lambda>el. name_attr el = Some ''csrf-token'') (page env) of
             None \<Rightarrow> []
           | Some el \<Rightarrow> (case content_attr el of None \<Rightarrow> [] | Some c \<Rightarrow> c))]\<rparr>]"
  using assms
  by (simp add: handleUpload_requests getCsrfToken_cases to_string_def)

theorem upload_request_witness:
  "first_file (inputRef_files chosen) = Some photo
   \<and> requests (added chosen (handleUpload page42 (Resolved created) chosen)) =
       [\<lparr>req_url = ''/api/products/42/image'', req_method = ''POST'',
         req_body = [(''image'', photo)],
         req_headers = [(''X-CSRF-TOKEN'', ''s3cr3t'')]\<rparr>]
   \<and> requests
        (added chosen
           (handleUpload (page42\<lparr>productModel_id := StrId ''sku-7'', page := []\<rparr>)
              (Rejected (Thrown (Some ''Failed to fetch''))) chosen)) =
       [\<lparr>req_url = ''/api/products/sku-7/image'', req_method = ''POST'',
         req_body = [(''image'', photo)],
         req_headers = [(''X-CSRF-TOKEN'', [])]\<rparr>]"
proof -
  have h: "first_file (inputRef_files chosen) = Some photo"
    by (simp add: chosen_world first_file_def)
  show ?thesis
    using h
      upload_request [OF h, where env = page42 and outcome = "Resolved created"]
      upload_request
        [OF h, where env = "page42\<lparr>productModel_id := StrId ''sku-7'', page := []\<rparr>"
          and outcome = "Rejected (Thrown (Some ''Failed to fetch''))"]
    by (simp add: page42_def decimal.simps digit_def)
qed

text \<open>
  C9, as the specification states it, of operations named \<^verbatim>\<open>enable()\<close> and
  \<^verbatim>\<open>disable()\<close>: the handle has no methods of these names, so a parent that calls
  \<^verbatim>\<open>enable()\<close> gets a \<^verbatim>\<open>TypeError\<close> and the widget is not touched.
\<close>

theorem handle_has_no_enable_counterexample:
  "invoke ''enable'' (disabled mounted) = Inl NotAFunction
   \<and> invoke ''disable'' mounted = Inl NotAFunction
   \<and> map fst handle = [''enabled'', ''disabled'']"
  by (simp add: invoke_def handle_def)

text \<open>
  C9, amended. The two operations of the handle are named \<^verbatim>\<open>enabled()\<close> and
  \<^verbatim>\<open>disabled()\<close>. Each makes one setter call and nothing else: it starts no request and
  waits for nothing. \<^verbatim>\<open>enabled\<close> sets \<^verbatim>\<open>isDisabled\<close> to false and \<^verbatim>\<open>disabled\<close> sets it
  to true, so calling either twice gives the state of calling it once, and \<^verbatim>\<open>enabled\<close>,
  \<^verbatim>\<open>disabled\<close>, \<^verbatim>\<open>enabled\<close> in a row leave the widget enabled with loading, success, error
  and preview as they were.
\<close>

theorem handle_sets_only_isDisabled:
  "invoke ''enabled'' w = Inr (enabled w)
   \<and> invoke ''disabled'' w = Inr (disabled w)
   \<and> hook_state (enabled (disabled (enabled w))) = (hook_state w)\<lparr>isDisabled := False\<rparr>
   \<and> loading (enabled (disabled (enabled w))) = loading w
   \<and> success (enabled (disabled (enabled w))) = success w
   \<and> error (enabled (disabled (enabled w))) = error w
   \<and> previewUrl (enabled (disabled (enabled w))) = previewUrl w
   \<and> hook_state (enabled (enabled w)) = hook_state (enabled w)
   \<and> hook_state (disabled (disabled w)) = hook_state (disabled w)
   \<and> hook_state (enabled w) = (hook_state w)\<lparr>isDisabled := False\<rparr>
   \<and> hook_state (disabled w) = (hook_state w)\<lparr>isDisabled := True\<rparr>
   \<and> added w (enabled w) = [SetIsDisabled False]
   \<and> added w (disabled w) = [SetIsDisabled True]
   \<and> pending (enabled w) = pending w
   \<and> pending (disabled w) = pending w
   \<and> step env w ParentCallsEnabled = enabled w
   \<and> step env w ParentCallsDisabled = disabled w"
  by (simp add: invoke_def handle_def enabled_world disabled_world hook_state_def
      widget.truncate_def added_def step_def)

theorem handle_sets_only_isDisabled_witness:
  "hook_state (enabled (disabled (enabled busy_and_disabled))) =
     \<lparr>isDisabled = False, loading = True, success = None, error = None,
      previewUrl = Some ''blob:0''\<rparr>
   \<and> invoke ''enabled'' busy_and_disabled = Inr (enabled busy_and_disabled)"
  using handle_sets_only_isDisabled [of busy_and_disabled page42]
  by (simp add: busy_and_disabled_world hook_state_def widget.truncate_def)

text \<open>
  C10. Of the files in a selection only the first counts. \<^verbatim>\<open>handleFileChange\<close> does the
  same for a list as for its first file alone: one call of \<^verbatim>\<open>URL.createObjectURL\<close>, on
  the first file, whose URL becomes the preview. \<^verbatim>\<open>handleUpload\<close> does the same whether
  the input holds the list or its first file alone, and the body of its one request is
  the single entry \<^verbatim>\<open>image\<close> with the first file. The handle's operations do not look
  at the input.
\<close>

theorem only_first_file_used:
  "handleFileChange (Some (f # others)) w = handleFileChange (Some [f]) w
   \<and> (\<exists>url. previewUrl (handleFileChange (Some (f # others)) w) = Some url
          \<and> [e \<leftarrow> added w (handleFileChange (Some (f # others)) w).
               \<exists>g u. e = CreateObjectURL g u]
              = [CreateObjectURL f url])
   \<and> handleUpload env outcome (w\<lparr>inputRef_files := Some (f # others)\<rparr>) =
       (handleUpload env outcome (w\<lparr>inputRef_files := Some [f]\<rparr>))
         \<lparr>inputRef_files := Some (f # others)\<rparr>
   \<and> map req_body
       (requests (added (w\<lparr>inputRef_files := Some (f # others)\<rparr>)
          (handleUpload env outcome (w\<lparr>inputRef_files := Some (f # others)\<rparr>))))
       = [[(''image'', f)]]
   \<and> enabled (w\<lparr>inputRef_files := Some (f # others)\<rparr>) =
       (enabled w)\<lparr>inputRef_files := Some (f # others)\<rparr>
   \<and> disabled (w\<lparr>inputRef_files := Some (f # others)\<rparr>) =
       (disabled w)\<lparr>inputRef_files := Some (f # others)\<rparr>"
proof -
  have a: "first_file (Some (f # others)) = Some f" "first_file (Some [f]) = Some f"
    by (simp_all add: first_file_def)
  have b: "first_file (inputRef_files (w\<lparr>inputRef_files := Some (f # others)\<rparr>)) = Some f"
    by (simp add: first_file_def)
  have 1: "handleFileChange (Some (f # others)) w = handleFileChange (Some [f]) w"
    by (simp add: handleFileChange_file a)
  have 2: "\<exists>url. previewUrl (handleFileChange (Some (f # others)) w) = Some url
          \<and> [e \<leftarrow> added w (handleFileChange (Some (f # others)) w).
               \<exists>g u. e = CreateObjectURL g u]
              = [CreateObjectURL f url]"
    by (simp add: handleFileChange_file a added_def)
  have 3: "handleUpload env outcome (w\<lparr>inputRef_files := Some (f # others)\<rparr>) =
       (handleUpload env outcome (w\<lparr>inputRef_files := Some [f]\<rparr>))
         \<lparr>inputRef_files := Some (f # others)\<rparr>"
    by (simp add: handleUpload_inputRef a)
  have 4: "map req_body
       (requests (added (w\<lparr>inputRef_files := Some (f # others)\<rparr>)
          (handleUpload env outcome (w\<lparr>inputRef_files := Some (f # others)\<rparr>))))
       = [[(''image'', f)]]"
    by (simp add: handleUpload_requests [OF b])
  have 5: "enabled (w\<lparr>inputRef_files := Some (f # others)\<rparr>) =
       (enabled w)\<lparr>inputRef_files := Some (f # others)\<rparr>"
    "disabled (w\<lparr>inputRef_files := Some (f # others)\<rparr>) =
       (disabled w)\<lparr>inputRef_files := Some (f # others)\<rparr>"
    by (simp_all add: enabled_world disabled_world)
  from 1 2 3 4 5 show ?thesis by blast
qed

theorem only_first_file_used_witness:
  "previewUrl (handleFileChange (Some [photo, holiday]) mounted) = Some ''blob:0''
   \<and> handleFileChange (Some [photo, holiday]) mounted =
       handleFileChange (Some [photo]) mounted
   \<and> map req_body
       (requests (added (mounted\<lparr>inputRef_files := Some [photo, holiday]\<rparr>)
          (handleUpload page42 (Resolved created)
             (mounted\<lparr>inputRef_files := Some [photo, holiday]\<rparr>))))
       = [[(''image'', photo)]]"
proof -
  have p: "previewUrl (handleFileChange (Some [photo, holiday]) mounted) = Some ''blob:0''"
    by (simp add: evaluate)
  show ?thesis
    using p
      only_first_file_used
        [of photo "[holiday]" mounted page42 "Resolved created"]
    by blast
qed

end
